theory Spec2Isabelle
  imports Main
begin

section \<open>The room broker of the signaling server\<close>

text \<open>
  The two source files hold the same broker (they differ in how the port is chosen):
  a module-level \<open>rooms\<close> map from room value to a set of sockets, a \<open>message\<close> handler,
  a \<open>close\<close> handler and the helper \<open>broadcast\<close>. The embedding passes the state
  explicitly and returns, next to the new state, the list of calls to \<open>send\<close> in the
  order in which they are made.
\<close>

subsection \<open>Values\<close>

text \<open>
  A socket is a JavaScript object compared by reference; its identity is a number.
\<close>

type_synonym conn = nat

text \<open>
  What \<open>JSON.parse\<close> returns. The type \<open>'n\<close> stands for the numbers a JSON text can
  denote (the doubles other than NaN, with the two zeros identified: neither truthiness
  nor the key comparison of \<open>Map\<close> tells them apart). An object lists its own
  properties in the order in which they are enumerated, each name once.
\<close>

datatype 'n json =
    JNull
  | JBool bool
  | JNum 'n
  | JStr string
  | JArr "'n json list"
  | JObj "(string \<times> 'n json) list"

text \<open>
  The value of the variable \<open>room\<close>, as \<open>Map\<close> and \<open>ws.roomId\<close> see it: primitives
  are compared by value, arrays and objects by reference (\<open>KRef\<close> holds the address).
\<close>

datatype 'n roomkey =
    KUndefined
  | KNull
  | KBool bool
  | KNum 'n
  | KStr string
  | KRef nat

datatype ready_state = CONNECTING | OPEN | CLOSING | CLOSED

datatype error = TypeError

type_synonym 'n sends = "(conn \<times> 'n json) list"

text \<open>
  \<open>rooms\<close> is the module-level map; \<open>roomId\<close> is the property of that name on each
  socket (\<open>None\<close> while it was never assigned); \<open>readyState\<close> is maintained by the
  transport. \<open>allocated\<close> is the number of messages parsed so far: the \<open>room\<close> of a
  message is a fresh object when it is an array or an object, and the number of its
  message serves as its address.
\<close>

record 'n state =
  rooms :: "'n roomkey \<rightharpoonup> conn list"
  roomId :: "conn \<rightharpoonup> 'n roomkey"
  readyState :: "conn \<Rightarrow> ready_state"
  allocated :: nat

subsection \<open>Helpers of the language\<close>

text \<open>Reading a property of a parsed value other than \<open>null\<close>.\<close>

fun get_prop :: "'n json \<Rightarrow> string \<Rightarrow> 'n json option" where
  "get_prop (JObj fs) name = map_of fs name"
| "get_prop _ name = None"

text \<open>
  The destructured \<open>room\<close>: \<open>a\<close> is the address given to the value when it is an array
  or an object.
\<close>

fun room_value :: "nat \<Rightarrow> 'n json option \<Rightarrow> 'n roomkey" where
  "room_value a None = KUndefined"
| "room_value a (Some JNull) = KNull"
| "room_value a (Some (JBool b)) = KBool b"
| "room_value a (Some (JNum n)) = KNum n"
| "room_value a (Some (JStr s)) = KStr s"
| "room_value a (Some (JArr xs)) = KRef a"
| "room_value a (Some (JObj fs)) = KRef a"

text \<open>Truthiness, as the \<open>close\<close> handler tests it on \<open>roomId\<close>.\<close>

fun truthy :: "'n::zero roomkey \<Rightarrow> bool" where
  "truthy KUndefined = False"
| "truthy KNull = False"
| "truthy (KBool b) = b"
| "truthy (KNum n) = (n \<noteq> 0)"
| "truthy (KStr s) = (s \<noteq> [])"
| "truthy (KRef a) = True"

text \<open>
  Whether converting a parsed value to a string throws, as the template literal of the log
  line in the \<open>'join'\<close> case converts \<open>room\<close>. An object is converted by calling its
  \<open>toString\<close>. In a parsed object an own property of that name is no function and hides
  the inherited one; the conversion then calls \<open>valueOf\<close>, gets the object itself back,
  and throws a \<open>TypeError\<close>. An array converts each element other than \<open>null\<close> and
  joins the results.
\<close>

fun to_string_throws :: "'n json \<Rightarrow> bool" where
  "to_string_throws (JObj fs) = (map_of fs ''toString'' \<noteq> None)"
| "to_string_throws (JArr xs) = (\<exists>x \<in> set xs. to_string_throws x)"
| "to_string_throws v = False"

definition log_throws :: "'n json option \<Rightarrow> bool" where
  "log_throws v = (case v of None \<Rightarrow> False | Some j \<Rightarrow> to_string_throws j)"

text \<open>
  A \<open>Set\<close> of sockets is the list of its elements in insertion order, which is the
  order of \<open>forEach\<close>.
\<close>

definition set_add :: "conn \<Rightarrow> conn list \<Rightarrow> conn list" where
  "set_add ws cs = (if ws \<in> set cs then cs else cs @ [ws])"

definition set_delete :: "conn \<Rightarrow> conn list \<Rightarrow> conn list" where
  "set_delete ws cs = removeAll ws cs"

text \<open>The object literal \<open>{ type: t }\<close>.\<close>

definition msg :: "string \<Rightarrow> 'n json" where
  "msg t = JObj [(''type'', JStr t)]"




subsection \<open>The broker\<close>

text \<open>
  \<open>broadcast(room, message, sender)\<close>. A pair \<open>(client, message)\<close> in the result is the
  call \<open>client.send(JSON.stringify(message))\<close>.
\<close>

definition broadcast :: "'n state \<Rightarrow> 'n roomkey \<Rightarrow> 'n json \<Rightarrow> conn \<Rightarrow> 'n sends" where
  "broadcast s room message sender =
     (case rooms s room of
        None \<Rightarrow> []
      | Some clients \<Rightarrow>
          map (\<lambda>client. (client, message))
            (filter (\<lambda>client. client \<noteq> sender \<and> readyState s client = OPEN) clients))"

text \<open>
  The \<open>'join'\<close> case of the switch. Its first statement creates the set of a room
  value that \<open>rooms\<close> does not have.
\<close>

definition ensure_room :: "'n state \<Rightarrow> 'n roomkey \<Rightarrow> 'n state" where
  "ensure_room s room =
     (if rooms s room = None then s\<lparr>rooms := (rooms s)(room \<mapsto> [])\<rparr> else s)"

definition join :: "'n state \<Rightarrow> conn \<Rightarrow> 'n roomkey \<Rightarrow> 'n state \<times> 'n sends" where
  "join s ws room =
     (let s1 = ensure_room s room;
          roomClients = set_add ws (case rooms s1 room of None \<Rightarrow> [] | Some cs \<Rightarrow> cs);
          s2 = s1\<lparr>rooms := (rooms s1)(room \<mapsto> roomClients),
                  roomId := (roomId s1)(ws \<mapsto> room)\<rparr>
      in if length roomClients = 1 then (s2, [(ws, msg ''joined'')])
         else if length roomClients = 2 then (s2, broadcast s2 room (msg ''ready'') ws)
         else (s2, []))"

text \<open>
  The body of the \<open>message\<close> handler after a successful parse. Destructuring \<open>null\<close>
  throws, and so does the log line of the \<open>'join'\<close> case for a room that cannot be
  converted to a string; nothing in the handler catches either. Every parsed message
  advances \<open>allocated\<close>.
\<close>

definition forwarded :: "'n json option \<Rightarrow> bool" where
  "forwarded t = (t = Some (JStr ''offer'') \<or> t = Some (JStr ''answer'')
                  \<or> t = Some (JStr ''candidate''))"

definition dispatch :: "'n state \<Rightarrow> conn \<Rightarrow> 'n json \<Rightarrow> error + ('n state \<times> 'n sends)" where
  "dispatch s ws data =
     (if data = JNull then Inl TypeError
      else
        let type = get_prop data ''type'';
            room = room_value (allocated s) (get_prop data ''room'');
            s0 = s\<lparr>allocated := Suc (allocated s)\<rparr>
        in if type = Some (JStr ''join'') then
             (if log_throws (get_prop data ''room'') then Inl TypeError
              else Inr (join s0 ws room))
           else if forwarded type then Inr (s0, broadcast s0 room data ws)
           else Inr (s0, []))"

text \<open>
  The \<open>message\<close> handler. \<open>parse\<close> is \<open>JSON.parse\<close>, with \<open>None\<close> where it throws.
\<close>

definition on_message ::
  "(string \<Rightarrow> 'n json option) \<Rightarrow> 'n state \<Rightarrow> conn \<Rightarrow> string \<Rightarrow> error + ('n state \<times> 'n sends)" where
  "on_message parse s ws message =
     (case parse message of
        None \<Rightarrow> Inr (s, [])
      | Some data \<Rightarrow> dispatch s ws data)"

text \<open>The \<open>close\<close> handler.\<close>

definition on_close :: "'n::zero state \<Rightarrow> conn \<Rightarrow> 'n state \<times> 'n sends" where
  "on_close s ws =
     (case roomId s ws of
        None \<Rightarrow> (s, [])
      | Some rid \<Rightarrow>
          if truthy rid then
            (case rooms s rid of
               None \<Rightarrow> (s, [])
             | Some roomClients \<Rightarrow>
                 let s' = s\<lparr>rooms := (rooms s)(rid \<mapsto> set_delete ws roomClients)\<rparr>
                 in (s', broadcast s' rid (msg ''leave'') ws))
          else (s, []))"

subsection \<open>Runs\<close>

text \<open>
  The events that drive the broker: a message arrives on a socket, a socket's \<open>close\<close>
  event fires, or the transport changes the \<open>readyState\<close> of a socket (which happens
  before its \<open>close\<close> event, while the socket is still in its room).
\<close>

datatype event = Message conn string | Close conn | Transport conn ready_state

definition step ::
  "(string \<Rightarrow> 'n json option) \<Rightarrow> 'n::zero state \<Rightarrow> event \<Rightarrow> error + ('n state \<times> 'n sends)" where
  "step parse s e =
     (case e of
        Message ws message \<Rightarrow> on_message parse s ws message
      | Close ws \<Rightarrow> Inr (on_close s ws)
      | Transport ws r \<Rightarrow> Inr (s\<lparr>readyState := (readyState s)(ws := r)\<rparr>, []))"

fun run ::
  "(string \<Rightarrow> 'n json option) \<Rightarrow> 'n::zero state \<Rightarrow> event list \<Rightarrow> error + ('n state \<times> 'n sends)" where
  "run parse s [] = Inr (s, [])"
| "run parse s (e # es) =
     (case step parse s e of
        Inl err \<Rightarrow> Inl err
      | Inr (s1, out1) \<Rightarrow>
          (case run parse s1 es of
             Inl err \<Rightarrow> Inl err
           | Inr (s2, out2) \<Rightarrow> Inr (s2, out1 @ out2)))"

text \<open>The state when the server starts; an accepted socket is open.\<close>

definition init :: "'n state" where
  "init = \<lparr>rooms = Map.empty, roomId = Map.empty, readyState = (\<lambda>ws. OPEN), allocated = 0\<rparr>"

subsection \<open>Observations\<close>

text \<open>Membership of a socket in the set stored for a room value.\<close>

definition in_room :: "'n state \<Rightarrow> 'n roomkey \<Rightarrow> conn \<Rightarrow> bool" where
  "in_room s room c = (case rooms s room of None \<Rightarrow> False | Some cs \<Rightarrow> c \<in> set cs)"

text \<open>What a run leaves behind; \<open>None\<close> also when the run ended in an exception.\<close>

definition room_after :: "error + ('n state \<times> 'n sends) \<Rightarrow> 'n roomkey \<Rightarrow> conn list option" where
  "room_after r room = (case r of Inl err \<Rightarrow> None | Inr (s, out) \<Rightarrow> rooms s room)"

definition roomId_after :: "error + ('n state \<times> 'n sends) \<Rightarrow> conn \<Rightarrow> 'n roomkey option" where
  "roomId_after r ws = (case r of Inl err \<Rightarrow> None | Inr (s, out) \<Rightarrow> roomId s ws)"

definition sends_of :: "error + ('n state \<times> 'n sends) \<Rightarrow> 'n sends option" where
  "sends_of r = (case r of Inl err \<Rightarrow> None | Inr (s, out) \<Rightarrow> Some out)"

text \<open>
  The socket and the room value of an event that gets past the log line of the \<open>'join'\<close>
  case in state \<open>s\<close>.
\<close>

definition join_request ::
  "(string \<Rightarrow> 'n json option) \<Rightarrow> 'n state \<Rightarrow> event \<Rightarrow> (conn \<times> 'n roomkey) option" where
  "join_request parse s e =
     (case e of
        Message ws message \<Rightarrow>
          (case parse message of
             None \<Rightarrow> None
           | Some data \<Rightarrow>
               if get_prop data ''type'' = Some (JStr ''join'')
                  \<and> \<not> log_throws (get_prop data ''room'')
               then Some (ws, room_value (allocated s) (get_prop data ''room''))
               else None)
      | Close ws \<Rightarrow> None
      | Transport ws r \<Rightarrow> None)"

text \<open>
  A run in which every join satisfies \<open>G\<close> in the state in which it arrives. The two
  conditions used below are: the socket names the room it already remembers, if it
  remembers one; and the room is not yet full for a newcomer.
\<close>

fun guarded ::
  "('n state \<Rightarrow> conn \<Rightarrow> 'n roomkey \<Rightarrow> bool) \<Rightarrow> (string \<Rightarrow> 'n json option) \<Rightarrow>
   'n::zero state \<Rightarrow> event list \<Rightarrow> bool" where
  "guarded G parse s [] = True"
| "guarded G parse s (e # es) =
     ((case join_request parse s e of None \<Rightarrow> True | Some (ws, room) \<Rightarrow> G s ws room)
      \<and> (case step parse s e of Inl err \<Rightarrow> True | Inr (s1, out1) \<Rightarrow> guarded G parse s1 es))"

definition same_room :: "'n state \<Rightarrow> conn \<Rightarrow> 'n roomkey \<Rightarrow> bool" where
  "same_room s ws room = (roomId s ws = None \<or> roomId s ws = Some room)"

definition has_seat :: "'n state \<Rightarrow> conn \<Rightarrow> 'n roomkey \<Rightarrow> bool" where
  "has_seat s ws room =
     (case rooms s room of None \<Rightarrow> True | Some cs \<Rightarrow> ws \<in> set cs \<or> length cs < 2)"

text \<open>The two invariants of the data model, as predicates on a state.\<close>

definition key_inv :: "'n state \<Rightarrow> bool" where
  "key_inv s =
     (\<forall>room cs c. rooms s room = Some cs \<longrightarrow> c \<in> set cs \<longrightarrow> roomId s c = Some room)"

definition size_inv :: "'n state \<Rightarrow> bool" where
  "size_inv s = (\<forall>room cs. rooms s room = Some cs \<longrightarrow> length cs \<le> 2)"

text \<open>
  Every array or object that is a room value in \<open>rooms\<close> was parsed earlier, so that an
  array or object parsed now is none of them.
\<close>

definition heap_ok :: "'n state \<Rightarrow> bool" where
  "heap_ok s = (\<forall>a. rooms s (KRef a) \<noteq> None \<longrightarrow> a < allocated s)"

subsection \<open>Example payloads\<close>

definition join_lobby :: string where
  "join_lobby = ''{\"type\":\"join\",\"room\":\"lobby\"}''"

definition join_attic :: string where
  "join_attic = ''{\"type\":\"join\",\"room\":\"attic\"}''"

definition offer_lobby :: string where
  "offer_lobby = ''{\"type\":\"offer\",\"room\":\"lobby\",\"sdp\":\"v=0\"}''"

definition cut_off :: string where
  "cut_off = ''{\"type\":''"

definition offer_data :: "int json" where
  "offer_data =
     JObj [(''type'', JStr ''offer''), (''room'', JStr ''lobby''), (''sdp'', JStr ''v=0'')]"

text \<open>
  \<open>JSON.parse\<close> on the texts of the examples: the three payloads above and
  \<open>cut_off\<close>, which is not JSON. The examples apply it to no other text.
\<close>

definition sample_parse :: "string \<Rightarrow> int json option" where
  "sample_parse message =
     (if message = join_lobby
      then Some (JObj [(''type'', JStr ''join''), (''room'', JStr ''lobby'')])
      else if message = join_attic
      then Some (JObj [(''type'', JStr ''join''), (''room'', JStr ''attic'')])
      else if message = offer_lobby then Some offer_data
      else None)"









section \<open>Lemmas about the handlers\<close>

lemmas sample_defs =
  sample_parse_def join_lobby_def join_attic_def offer_lobby_def cut_off_def offer_data_def
  step_def on_message_def on_close_def dispatch_def forwarded_def join_def ensure_room_def
  set_add_def set_delete_def broadcast_def init_def msg_def Let_def
  log_throws_def sends_of_def room_after_def roomId_after_def

lemma broadcast_allocated [simp]:
  "broadcast (s\<lparr>allocated := n\<rparr>) room message sender = broadcast s room message sender"
  by (simp add: broadcast_def split: option.splits)

lemma forwarded_not_join: "forwarded t \<Longrightarrow> t \<noteq> Some (JStr ''join'')"
  by (auto simp: forwarded_def)


text \<open>Destructuring \<open>null\<close> ends the handler with the exception.\<close>

lemma dispatch_null: "dispatch s ws JNull = Inl TypeError"
  by (simp add: dispatch_def)

text \<open>Who receives a broadcast, and what.\<close>

lemma broadcast_recipients:
  assumes "(c, m) \<in> set (broadcast s room message sender)"
  shows "in_room s room c \<and> c \<noteq> sender \<and> readyState s c = OPEN \<and> m = message"
proof (cases "rooms s room")
  case None
  with assms show ?thesis by (simp add: broadcast_def)
next
  case (Some cs)
  with assms show ?thesis by (auto simp: broadcast_def in_room_def)
qed

text \<open>
  A join whose room is an object with an own property \<open>toString\<close> ends the handler with
  the exception before anything is stored or sent.
\<close>

lemma join_unloggable_room:
  "dispatch s ws (JObj [(''type'', JStr ''join''), (''room'', JObj [(''toString'', JNull)])])
     = Inl TypeError"
  by (simp add: dispatch_def log_throws_def)

lemma dispatch_join_throws:
  assumes "get_prop data ''type'' = Some (JStr ''join'')"
    and "log_throws (get_prop data ''room'')"
  shows "dispatch s ws data = Inl TypeError"
  using assms by (simp add: dispatch_def Let_def)

lemma dispatch_join:
  assumes "get_prop data ''type'' = Some (JStr ''join'')"
    and "\<not> log_throws (get_prop data ''room'')"
  shows "dispatch s ws data =
           Inr (join (s\<lparr>allocated := Suc (allocated s)\<rparr>) ws
                  (room_value (allocated s) (get_prop data ''room'')))"
proof -
  from assms have "data \<noteq> JNull" by auto
  with assms show ?thesis by (simp add: dispatch_def Let_def)
qed

lemma dispatch_forward:
  assumes "forwarded (get_prop data ''type'')"
  shows "dispatch s ws data =
           Inr (s\<lparr>allocated := Suc (allocated s)\<rparr>,
                broadcast s (room_value (allocated s) (get_prop data ''room'')) data ws)"
proof -
  from assms have "data \<noteq> JNull" by (auto simp: forwarded_def)
  moreover from assms have "get_prop data ''type'' \<noteq> Some (JStr ''join'')"
    by (rule forwarded_not_join)
  ultimately show ?thesis using assms by (simp add: dispatch_def Let_def)
qed

lemma join_rooms:
  "rooms (fst (join s ws room)) =
     (rooms s)(room \<mapsto> set_add ws (case rooms s room of None \<Rightarrow> [] | Some cs \<Rightarrow> cs))"
  by (auto simp: join_def ensure_room_def Let_def split: option.splits)

lemma join_roomId: "roomId (fst (join s ws room)) = (roomId s)(ws \<mapsto> room)"
  by (auto simp: join_def ensure_room_def Let_def)

text \<open>
  A falsy \<open>roomId\<close> (the empty string, zero, \<open>false\<close>, \<open>null\<close>, \<open>undefined\<close>) makes the
  \<open>close\<close> handler do nothing, although \<open>'join'\<close> accepts such a room value: the socket
  stays in the set of its room.
\<close>

lemma on_close_falsy:
  assumes "roomId s ws = Some rid" and "\<not> truthy rid"
  shows "on_close s ws = (s, [])"
  using assms by (simp add: on_close_def)

text \<open>
  What one event does to \<open>rooms\<close> and \<open>roomId\<close>: nothing, the additions of a join, or
  the removal of a close.
\<close>

lemma step_effect:
  assumes "step parse s e = Inr (s', out)"
  shows "(rooms s' = rooms s \<and> roomId s' = roomId s \<and> join_request parse s e = None)
       \<or> (\<exists>ws room. join_request parse s e = Some (ws, room)
             \<and> rooms s' = (rooms s)(room \<mapsto>
                   set_add ws (case rooms s room of None \<Rightarrow> [] | Some cs \<Rightarrow> cs))
             \<and> roomId s' = (roomId s)(ws \<mapsto> room))
       \<or> (\<exists>ws rid cs. e = Close ws \<and> roomId s ws = Some rid \<and> rooms s rid = Some cs
             \<and> rooms s' = (rooms s)(rid \<mapsto> removeAll ws cs) \<and> roomId s' = roomId s)"
proof (cases e)
  case (Message ws message)
  show ?thesis
  proof (cases "parse message")
    case None
    with Message assms show ?thesis
      by (simp add: step_def on_message_def join_request_def)
  next
    case (Some data)
    from Message Some assms have d: "dispatch s ws data = Inr (s', out)"
      by (simp add: step_def on_message_def)
    show ?thesis
    proof (cases "get_prop data ''type'' = Some (JStr ''join'')")
      case True
      with d have quiet: "\<not> log_throws (get_prop data ''room'')"
        by (auto simp: dispatch_join_throws)
      with True d have "s' = fst (join (s\<lparr>allocated := Suc (allocated s)\<rparr>) ws
                                  (room_value (allocated s) (get_prop data ''room'')))"
        by (simp add: dispatch_join)
      with Message Some True quiet show ?thesis
        by (simp add: join_request_def join_rooms join_roomId)
    next
      case False
      with d have "s' = s\<lparr>allocated := Suc (allocated s)\<rparr>"
        by (auto simp: dispatch_def Let_def split: if_splits)
      with Message Some False show ?thesis
        by (simp add: join_request_def)
    qed
  qed
next
  case (Close ws)
  with assms show ?thesis
    by (auto simp: step_def on_close_def join_request_def set_delete_def Let_def
             split: option.splits if_splits)
next
  case (Transport ws r)
  with assms show ?thesis
    by (auto simp: step_def join_request_def)
qed

text \<open>A property kept by every step holds at the end of a run.\<close>

lemma run_invariant:
  assumes step_ok: "\<And>s e s' out. P s \<Longrightarrow> step parse s e = Inr (s', out) \<Longrightarrow> P s'"
  shows "P s \<Longrightarrow> run parse s es = Inr (s', out) \<Longrightarrow> P s'"
proof (induction es arbitrary: s out)
  case Nil
  then show ?case by simp
next
  case (Cons e es)
  from Cons.prems(2) obtain s1 out1 out2 where
    st: "step parse s e = Inr (s1, out1)" and rest: "run parse s1 es = Inr (s', out2)"
    by (auto split: sum.splits prod.splits)
  from step_ok [OF Cons.prems(1) st] have "P s1" .
  from Cons.IH [OF this rest] show ?case .
qed

text \<open>
  The room value of a join is the only one a step can add to \<open>rooms\<close>, and a message
  moves \<open>allocated\<close> past the address it used.
\<close>

lemma step_allocated:
  assumes "step parse s e = Inr (s', out)"
  shows "allocated s \<le> allocated s'
       \<and> (\<forall>ws room. join_request parse s e = Some (ws, room) \<longrightarrow> allocated s < allocated s')"
proof (cases e)
  case (Message ws message)
  show ?thesis
  proof (cases "parse message")
    case None
    with Message assms show ?thesis
      by (simp add: step_def on_message_def join_request_def)
  next
    case (Some data)
    from Message Some assms have d: "dispatch s ws data = Inr (s', out)"
      by (simp add: step_def on_message_def)
    then have "allocated s' = Suc (allocated s)"
      by (auto simp: dispatch_def join_def ensure_room_def Let_def split: if_splits)
    then show ?thesis by simp
  qed
next
  case (Close ws)
  with assms show ?thesis
    by (auto simp: step_def on_close_def join_request_def Let_def split: option.splits if_splits)
next
  case (Transport ws r)
  with assms show ?thesis
    by (auto simp: step_def join_request_def)
qed

lemma join_request_room:
  assumes "join_request parse s e = Some (ws, KRef a)"
  shows "a \<le> allocated s"
proof -
  from assms obtain v :: "'a json option" where "room_value (allocated s) v = KRef a"
    by (auto simp: join_request_def split: event.splits option.splits if_splits)
  then show ?thesis
    by (cases "(allocated s, v)" rule: room_value.cases) auto
qed

lemma heap_ok_step:
  assumes ok: "heap_ok s" and st: "step parse s e = Inr (s', out)"
  shows "heap_ok s'"
  unfolding heap_ok_def
proof (intro allI impI)
  fix a
  assume present: "rooms s' (KRef a) \<noteq> None"
  from step_allocated [OF st] have mono: "allocated s \<le> allocated s'"
    and grow: "\<And>ws room. join_request parse s e = Some (ws, room) \<Longrightarrow> allocated s < allocated s'"
    by auto
  from step_effect [OF st] show "a < allocated s'"
  proof (elim disjE exE conjE)
    assume "rooms s' = rooms s"
    with present ok have "a < allocated s" by (simp add: heap_ok_def)
    with mono show ?thesis by simp
  next
    fix ws room
    assume jr: "join_request parse s e = Some (ws, room)"
      and r: "rooms s' = (rooms s)(room \<mapsto>
                set_add ws (case rooms s room of None \<Rightarrow> [] | Some cs \<Rightarrow> cs))"
    show ?thesis
    proof (cases "room = KRef a")
      case True
      with jr have "a \<le> allocated s" by (simp add: join_request_room)
      with grow [OF jr] show ?thesis by simp
    next
      case False
      with r present have "rooms s (KRef a) \<noteq> None" by simp
      with ok have "a < allocated s" by (simp add: heap_ok_def)
      with mono show ?thesis by simp
    qed
  next
    fix ws rid cs
    assume c: "rooms s rid = Some cs" and r: "rooms s' = (rooms s)(rid \<mapsto> removeAll ws cs)"
    from r present c have "rooms s (KRef a) \<noteq> None"
      by (cases "rid = KRef a") auto
    with ok have "a < allocated s" by (simp add: heap_ok_def)
    with mono show ?thesis by simp
  qed
qed

lemma heap_ok_run:
  assumes "run parse init evs = Inr (s, out)"
  shows "heap_ok s"
proof -
  have start: "heap_ok (init :: 'a state)"
    by (simp add: heap_ok_def init_def)
  show ?thesis
    by (rule run_invariant [where P = heap_ok, OF heap_ok_step start assms])
qed

text \<open>
  A room value that names a room of \<open>rooms\<close> is a primitive, so that the log line of
  the \<open>'join'\<close> case does not throw on it.
\<close>

lemma existing_room_logs:
  assumes "heap_ok s" and "rooms s (room_value (allocated s) v) \<noteq> None"
  shows "\<not> log_throws v"
proof (cases "(allocated s, v)" rule: room_value.cases)
  case (6 a xs)
  with assms show ?thesis by (auto simp: heap_ok_def)
next
  case (7 a fs)
  with assms show ?thesis by (auto simp: heap_ok_def)
qed (simp_all add: log_throws_def)

lemma step_keeps_room:
  assumes "step parse s e = Inr (s', out)" and "rooms s room \<noteq> None"
  shows "rooms s' room \<noteq> None"
  using step_effect [OF assms(1)] assms(2) by auto

lemma run_keeps_room:
  "run parse s evs = Inr (s', out) \<Longrightarrow> rooms s room \<noteq> None \<Longrightarrow> rooms s' room \<noteq> None"
proof (induction evs arbitrary: s out)
  case Nil
  then show ?case by simp
next
  case (Cons e evs)
  from Cons.prems(1) obtain s1 out1 out2 where
    st: "step parse s e = Inr (s1, out1)" and rest: "run parse s1 evs = Inr (s', out2)"
    by (auto split: sum.splits prod.splits)
  from step_keeps_room [OF st Cons.prems(2)] have "rooms s1 room \<noteq> None" .
  from Cons.IH [OF rest this] show ?case .
qed

text \<open>A property kept by every guarded step holds at the end of a guarded run.\<close>

lemma guarded_invariant:
  assumes step_ok: "\<And>s e s' out. P s \<Longrightarrow> step parse s e = Inr (s', out) \<Longrightarrow>
             (case join_request parse s e of None \<Rightarrow> True | Some (ws, room) \<Rightarrow> G s ws room)
             \<Longrightarrow> P s'"
  shows "P s \<Longrightarrow> guarded G parse s es \<Longrightarrow> run parse s es = Inr (s', out) \<Longrightarrow> P s'"
proof (induction es arbitrary: s out)
  case Nil
  then show ?case by simp
next
  case (Cons e es)
  from Cons.prems(3) obtain s1 out1 out2 where
    st: "step parse s e = Inr (s1, out1)" and rest: "run parse s1 es = Inr (s', out2)"
    by (auto split: sum.splits prod.splits)
  from Cons.prems(2) st
  have g: "case join_request parse s e of None \<Rightarrow> True | Some (ws, room) \<Rightarrow> G s ws room"
    and g': "guarded G parse s1 es"
    by auto
  from step_ok [OF Cons.prems(1) st g] have "P s1" .
  from Cons.IH [OF this g' rest] show ?case .
qed

lemma key_inv_step:
  assumes inv: "key_inv s" and st: "step parse s e = Inr (s', out)"
    and g: "case join_request parse s e of None \<Rightarrow> True
            | Some (ws, room) \<Rightarrow> same_room s ws room"
  shows "key_inv s'"
  using step_effect [OF st]
proof (elim disjE exE conjE)
  assume "rooms s' = rooms s" "roomId s' = roomId s"
  with inv show ?thesis by (simp add: key_inv_def)
next
  fix ws room
  assume jr: "join_request parse s e = Some (ws, room)"
    and r: "rooms s' = (rooms s)(room \<mapsto>
              set_add ws (case rooms s room of None \<Rightarrow> [] | Some cs \<Rightarrow> cs))"
    and i: "roomId s' = (roomId s)(ws \<mapsto> room)"
  from g jr have sr: "roomId s ws = None \<or> roomId s ws = Some room"
    by (simp add: same_room_def)
  show ?thesis
    unfolding key_inv_def
  proof (intro allI impI)
    fix room' cs c
    assume a: "rooms s' room' = Some cs" and m: "c \<in> set cs"
    show "roomId s' c = Some room'"
    proof (cases "room' = room")
      case True
      with a r m have "c = ws \<or> (\<exists>cs0. rooms s room = Some cs0 \<and> c \<in> set cs0)"
        by (auto simp: set_add_def split: option.splits if_splits)
      with inv True i show ?thesis by (auto simp: key_inv_def)
    next
      case False
      with a r have old: "rooms s room' = Some cs" by simp
      with inv m have k: "roomId s c = Some room'" by (auto simp: key_inv_def)
      with sr False have "c \<noteq> ws" by auto
      with k i show ?thesis by simp
    qed
  qed
next
  fix ws rid cs
  assume "rooms s rid = Some cs" "rooms s' = (rooms s)(rid \<mapsto> removeAll ws cs)"
    "roomId s' = roomId s"
  with inv show ?thesis by (auto simp: key_inv_def split: if_splits)
qed

lemma key_inv_run:
  assumes "guarded same_room parse init evs" and "run parse init evs = Inr (s, out)"
  shows "key_inv s"
proof -
  have start: "key_inv (init :: 'a state)"
    by (simp add: key_inv_def init_def)
  show ?thesis
    by (rule guarded_invariant [where P = key_inv and G = same_room,
          OF key_inv_step start assms])
qed

lemma length_removeAll_le: "length (removeAll x xs) \<le> length xs"
  by (simp add: removeAll_filter_not_eq)

lemma size_inv_step:
  assumes inv: "size_inv s" and st: "step parse s e = Inr (s', out)"
    and g: "case join_request parse s e of None \<Rightarrow> True
            | Some (ws, room) \<Rightarrow> has_seat s ws room"
  shows "size_inv s'"
  using step_effect [OF st]
proof (elim disjE exE conjE)
  assume "rooms s' = rooms s" "roomId s' = roomId s"
  with inv show ?thesis by (simp add: size_inv_def)
next
  fix ws room
  assume jr: "join_request parse s e = Some (ws, room)"
    and r: "rooms s' = (rooms s)(room \<mapsto>
              set_add ws (case rooms s room of None \<Rightarrow> [] | Some cs \<Rightarrow> cs))"
  from g jr have "has_seat s ws room" by simp
  then have "length (set_add ws (case rooms s room of None \<Rightarrow> [] | Some cs \<Rightarrow> cs)) \<le> 2"
    using inv by (auto simp: has_seat_def set_add_def size_inv_def split: option.splits)
  with inv r show ?thesis by (auto simp: size_inv_def)
next
  fix ws rid cs
  assume c: "rooms s rid = Some cs" and r: "rooms s' = (rooms s)(rid \<mapsto> removeAll ws cs)"
  from inv c have "length cs \<le> 2" by (simp add: size_inv_def)
  with length_removeAll_le [of ws cs] have "length (removeAll ws cs) \<le> 2" by linarith
  with inv r show ?thesis by (auto simp: size_inv_def)
qed

lemma size_inv_run:
  assumes "guarded has_seat parse init evs" and "run parse init evs = Inr (s, out)"
  shows "size_inv s"
proof -
  have start: "size_inv (init :: 'a state)"
    by (simp add: size_inv_def init_def)
  show ?thesis
    by (rule guarded_invariant [where P = size_inv and G = has_seat,
          OF size_inv_step start assms])
qed

section \<open>The claims\<close>

subsection \<open>C1: join sequencing\<close>

text \<open>
  Claim C1 as stated does not hold where it says that the second join sends \<open>ready\<close> to the
  first member: \<open>broadcast\<close> skips a member whose \<open>readyState\<close> is not \<open>OPEN\<close>. Socket 0
  joins the lobby and is answered \<open>joined\<close>; the transport then marks it as closing; the
  join of socket 1 sends nothing.
\<close>

theorem C1_counterexample:
  "sends_of (run sample_parse init
      [Message 0 join_lobby, Transport 0 CLOSING, Message 1 join_lobby])
     = Some [(0, msg ''joined'')]"
  by (simp add: sample_defs)

text \<open>
  Claim C1, amended: let socket \<open>A\<close> send a join whose room value \<open>R\<close> the log line can
  convert to a string. When \<open>R\<close> is absent from \<open>rooms\<close> or has an empty set, the broker
  sends \<open>{type: 'joined'}\<close> to \<open>A\<close> and to nobody else, and \<open>A\<close> is then the only member.
  When the set of \<open>R\<close> is exactly \<open>{A}\<close> and another socket \<open>B\<close> sends such a join for
  \<open>R\<close>, the broker sends \<open>{type: 'ready'}\<close> to \<open>A\<close> if \<open>A\<close> is open and sends nothing
  otherwise; \<open>B\<close> gets no reply in either case.
\<close>

theorem C1_join_sequencing:
  fixes s :: "'n state"
  assumes "get_prop data ''type'' = Some (JStr ''join'')"
    and "\<not> log_throws (get_prop data ''room'')"
    and "room_value (allocated s) (get_prop data ''room'') = R"
  shows "(rooms s R = None \<or> rooms s R = Some [] \<longrightarrow>
            (\<exists>s'. dispatch s A data = Inr (s', [(A, msg ''joined'')])
                  \<and> rooms s' R = Some [A] \<and> roomId s' A = Some R))
       \<and> (rooms s R = Some [A] \<and> B \<noteq> A \<longrightarrow>
            (\<exists>s'. dispatch s B data =
                     Inr (s', if readyState s A = OPEN then [(A, msg ''ready'')] else [])
                  \<and> rooms s' R = Some [A, B] \<and> roomId s' B = Some R))"
  using assms
  by (auto simp: dispatch_join join_def ensure_room_def set_add_def broadcast_def Let_def)

theorem C1_join_sequencing_witness:
  "(\<exists>s'. dispatch (init :: int state) 0
            (JObj [(''type'', JStr ''join''), (''room'', JStr ''lobby'')])
            = Inr (s', [(0, msg ''joined'')])
         \<and> rooms s' (KStr ''lobby'') = Some [0] \<and> roomId s' 0 = Some (KStr ''lobby''))
   \<and> (\<exists>s'. dispatch ((init :: int state)\<lparr>rooms := [KStr ''lobby'' \<mapsto> [0]]\<rparr>) 1
              (JObj [(''type'', JStr ''join''), (''room'', JStr ''lobby'')])
            = Inr (s', [(0, msg ''ready'')])
         \<and> rooms s' (KStr ''lobby'') = Some [0, 1] \<and> roomId s' 1 = Some (KStr ''lobby''))"
proof -
  let ?d = "JObj [(''type'', JStr ''join''), (''room'', JStr ''lobby'')] :: int json"
  let ?s = "(init :: int state)\<lparr>rooms := [KStr ''lobby'' \<mapsto> [0]]\<rparr>"
  have t: "get_prop ?d ''type'' = Some (JStr ''join'')" by simp
  have q: "\<not> log_throws (get_prop ?d ''room'')" by (simp add: log_throws_def)
  have k0: "room_value (allocated (init :: int state)) (get_prop ?d ''room'') = KStr ''lobby''"
    by simp
  have k1: "room_value (allocated ?s) (get_prop ?d ''room'') = KStr ''lobby''"
    by simp
  from C1_join_sequencing [OF t q k0, of 0 1]
  have p1: "\<exists>s'. dispatch (init :: int state) 0 ?d = Inr (s', [(0, msg ''joined'')])
         \<and> rooms s' (KStr ''lobby'') = Some [0] \<and> roomId s' 0 = Some (KStr ''lobby'')"
    by (simp add: init_def)
  from C1_join_sequencing [OF t q k1, of 0 1]
  have p2: "\<exists>s'. dispatch ?s 1 ?d = Inr (s', [(0, msg ''ready'')])
         \<and> rooms s' (KStr ''lobby'') = Some [0, 1] \<and> roomId s' 1 = Some (KStr ''lobby'')"
    by (simp add: init_def)
  from p1 p2 show ?thesis by blast
qed

subsection \<open>C2: forwarding\<close>




subsection \<open>C3: forwarding to a room the sender is not in\<close>

text \<open>
  Claim C3 as stated does not hold for a sender that is not a member of an existing room:
  \<open>broadcast\<close> never looks the sender up in the set. Sockets 0 and 1 are paired in the
  lobby; socket 2, which never joined, sends an offer for the lobby, and both members
  receive it.
\<close>

theorem C3_counterexample:
  "sends_of (run sample_parse init
      [Message 0 join_lobby, Message 1 join_lobby, Message 2 offer_lobby])
     = Some [(0, msg ''joined''), (0, msg ''ready''), (0, offer_data), (1, offer_data)]"
  by (simp add: sample_defs)

text \<open>
  Claim C3, amended: an \<open>offer\<close>, \<open>answer\<close> or \<open>candidate\<close> message from socket \<open>C\<close>
  naming room \<open>R\<close> never changes \<open>rooms\<close> or any \<open>roomId\<close>. If \<open>R\<close> is not in \<open>rooms\<close>,
  nothing is sent. If \<open>R\<close> is in \<open>rooms\<close> and \<open>C\<close> is not a member, the message is sent to
  every open member of \<open>R\<close>.
\<close>

theorem C3_forward_without_membership:
  fixes s :: "'n state"
  assumes "forwarded (get_prop data ''type'')"
    and "room_value (allocated s) (get_prop data ''room'') = R"
  shows "\<exists>s' out. dispatch s C data = Inr (s', out)
           \<and> rooms s' = rooms s \<and> roomId s' = roomId s
           \<and> (rooms s R = None \<longrightarrow> out = [])
           \<and> (\<forall>cs. rooms s R = Some cs \<and> C \<notin> set cs \<longrightarrow>
                 out = map (\<lambda>c. (c, data)) (filter (\<lambda>c. readyState s c = OPEN) cs))"
proof -
  have "\<And>cs. C \<notin> set cs \<Longrightarrow>
          filter (\<lambda>c. c \<noteq> C \<and> readyState s c = OPEN) cs
            = filter (\<lambda>c. readyState s c = OPEN) cs"
    by (rule filter_cong) auto
  with assms show ?thesis
    by (auto simp: dispatch_forward broadcast_def)
qed

theorem C3_forward_without_membership_witness:
  "(\<exists>s' out. dispatch (init :: int state) 2 offer_data = Inr (s', out) \<and> out = [])
   \<and> (\<exists>s' out. dispatch ((init :: int state)\<lparr>rooms := [KStr ''lobby'' \<mapsto> [0, 1]]\<rparr>) 2
                    offer_data = Inr (s', out)
               \<and> out = [(0, offer_data), (1, offer_data)])"
proof -
  let ?s = "(init :: int state)\<lparr>rooms := [KStr ''lobby'' \<mapsto> [0, 1]]\<rparr>"
  have t: "forwarded (get_prop offer_data ''type'')"
    by (simp add: forwarded_def offer_data_def)
  have k0: "room_value (allocated (init :: int state)) (get_prop offer_data ''room'')
              = KStr ''lobby''"
    by (simp add: offer_data_def)
  have k1: "room_value (allocated ?s) (get_prop offer_data ''room'') = KStr ''lobby''"
    by (simp add: offer_data_def)
  have absent: "rooms (init :: int state) (KStr ''lobby'') = None"
    by (simp add: init_def)
  have present: "rooms ?s (KStr ''lobby'') = Some [0, 1] \<and> (2::nat) \<notin> set [0, 1]"
    by simp
  from C3_forward_without_membership [OF t k0, of 2] absent
  have p0: "\<exists>s' out. dispatch (init :: int state) 2 offer_data = Inr (s', out) \<and> out = []"
    by blast
  from C3_forward_without_membership [OF t k1, of 2] present
  have "\<exists>s' out. dispatch ?s 2 offer_data = Inr (s', out)
          \<and> out = map (\<lambda>c. (c, offer_data)) (filter (\<lambda>c. readyState ?s c = OPEN) [0, 1])"
    by blast
  then have p1: "\<exists>s' out. dispatch ?s 2 offer_data = Inr (s', out)
          \<and> out = [(0, offer_data), (1, offer_data)]"
    by (simp add: init_def)
  from p0 p1 show ?thesis by blast
qed

subsection \<open>C4: members and their remembered room\<close>

text \<open>
  Claim C4 as stated does not hold: a second join overwrites \<open>roomId\<close> and leaves the
  socket in the set of the first room. After socket 0 joins the lobby and then the attic,
  it is still a member of the lobby while its \<open>roomId\<close> is the attic.
\<close>

theorem C4_counterexample:
  "room_after (run sample_parse init [Message 0 join_lobby, Message 0 join_attic])
       (KStr ''lobby'') = Some [0]
   \<and> roomId_after (run sample_parse init [Message 0 join_lobby, Message 0 join_attic]) 0
       = Some (KStr ''attic'')"
  by (simp add: sample_defs)

text \<open>
  Claim C4, amended: in every state reached from the start by message, close and transport
  events in which each join names the room the socket already remembers, if it remembers
  one, every socket in the set of a room has that room as its \<open>roomId\<close>.
\<close>

theorem C4_membership_key:
  assumes "guarded same_room parse init evs"
    and "room_after (run parse init evs) room = Some cs"
    and "c \<in> set cs"
  shows "roomId_after (run parse init evs) c = Some room"
proof -
  from assms(2) obtain s out where r: "run parse init evs = Inr (s, out)"
    and m: "rooms s room = Some cs"
    by (auto simp: room_after_def split: sum.splits)
  from key_inv_run [OF assms(1) r] m assms(3) have "roomId s c = Some room"
    by (simp add: key_inv_def)
  with r show ?thesis by (simp add: roomId_after_def)
qed

theorem C4_membership_key_witness:
  "guarded same_room sample_parse init [Message 0 join_lobby, Message 1 join_lobby, Close 0]
   \<and> room_after (run sample_parse init [Message 0 join_lobby, Message 1 join_lobby, Close 0])
        (KStr ''lobby'') = Some [1]
   \<and> 1 \<in> set [1::nat]
   \<and> roomId_after (run sample_parse init [Message 0 join_lobby, Message 1 join_lobby, Close 0]) 1
        = Some (KStr ''lobby'')"
proof -
  let ?evs = "[Message 0 join_lobby, Message 1 join_lobby, Close 0]"
  have g: "guarded same_room sample_parse init ?evs"
    by (simp add: sample_defs join_request_def same_room_def)
  have m: "room_after (run sample_parse init ?evs) (KStr ''lobby'') = Some [1]"
    by (simp add: sample_defs)
  have i: "1 \<in> set [1::nat]" by simp
  from C4_membership_key [OF g m i] g m i show ?thesis by simp
qed

subsection \<open>C5: size of a room\<close>

text \<open>
  Claim C5 as stated does not hold: the \<open>'join'\<close> case adds the socket before it looks at
  the size, and no branch rejects a third one. After three sockets join the lobby its set
  has three members.
\<close>

theorem C5_counterexample:
  "room_after (run sample_parse init
      [Message 0 join_lobby, Message 1 join_lobby, Message 2 join_lobby]) (KStr ''lobby'')
     = Some [0, 1, 2]"
  by (simp add: sample_defs)

text \<open>
  Claim C5, amended: in every state reached from the start by message, close and transport
  events in which no socket sends a join for a room that already has two members without
  being one of them, the set of every room has at most two members.
\<close>

theorem C5_two_members:
  assumes "guarded has_seat parse init evs"
    and "room_after (run parse init evs) room = Some cs"
  shows "length cs \<le> 2"
proof -
  from assms(2) obtain s out where r: "run parse init evs = Inr (s, out)"
    and m: "rooms s room = Some cs"
    by (auto simp: room_after_def split: sum.splits)
  from size_inv_run [OF assms(1) r] m show ?thesis
    by (simp add: size_inv_def)
qed

theorem C5_two_members_witness:
  "guarded has_seat sample_parse init
      [Message 0 join_lobby, Message 1 join_lobby, Message 2 join_attic, Message 2 offer_lobby]
   \<and> room_after (run sample_parse init
      [Message 0 join_lobby, Message 1 join_lobby, Message 2 join_attic, Message 2 offer_lobby])
        (KStr ''lobby'') = Some [0, 1]
   \<and> length [0::nat, 1] \<le> 2"
proof -
  let ?evs = "[Message 0 join_lobby, Message 1 join_lobby, Message 2 join_attic,
               Message 2 offer_lobby]"
  have g: "guarded has_seat sample_parse init ?evs"
    by (simp add: sample_defs join_request_def has_seat_def)
  have m: "room_after (run sample_parse init ?evs) (KStr ''lobby'') = Some [0, 1]"
    by (simp add: sample_defs)
  from C5_two_members [OF g m] g m show ?thesis by simp
qed

subsection \<open>C6: payloads that do not parse\<close>

text \<open>
  Claim C6: when \<open>JSON.parse\<close> rejects the payload, the handler returns normally, sends
  nothing and leaves the whole state as it was; every later event is therefore processed
  as if the payload had never arrived.
\<close>

theorem C6_malformed_input:
  assumes "parse message = None"
  shows "on_message parse s ws message = Inr (s, [])
       \<and> run parse s (Message ws message # evs) = run parse s evs"
proof
  from assms show m: "on_message parse s ws message = Inr (s, [])"
    by (simp add: on_message_def)
  then have "step parse s (Message ws message) = Inr (s, [])"
    by (simp add: step_def)
  then show "run parse s (Message ws message # evs) = run parse s evs"
    by (cases "run parse s evs") auto
qed

theorem C6_malformed_input_witness:
  "sample_parse cut_off = None
   \<and> on_message sample_parse init 0 cut_off = Inr (init, [])
   \<and> run sample_parse init [Message 0 cut_off, Message 0 join_lobby]
       = run sample_parse init [Message 0 join_lobby]"
proof -
  have n: "sample_parse cut_off = None"
    by (simp add: sample_parse_def cut_off_def join_lobby_def join_attic_def offer_lobby_def)
  from C6_malformed_input [where parse = sample_parse and message = cut_off and s = init
      and ws = 0 and evs = "[Message 0 join_lobby]", OF n] n
  show ?thesis by simp
qed

subsection \<open>C7: disconnect\<close>

text \<open>
  Claim C7 as stated does not hold, for two reasons that lie in the design of the handlers.
  The \<open>close\<close> handler removes the socket from the room named by its \<open>roomId\<close> only: after
  socket 0 joined the lobby with socket 1 and then the attic, its disconnect leaves the
  lobby with both members and sends socket 1 nothing. And \<open>broadcast\<close> skips a member
  that is not open: when socket 1 is closing while socket 0 disconnects, socket 0 is
  removed but no \<open>leave\<close> is sent.
\<close>

theorem C7_counterexample:
  "room_after (run sample_parse init
      [Message 0 join_lobby, Message 1 join_lobby, Message 0 join_attic, Close 0])
      (KStr ''lobby'') = Some [0, 1]
   \<and> sends_of (run sample_parse init
      [Message 0 join_lobby, Message 1 join_lobby, Message 0 join_attic, Close 0])
      = Some [(0, msg ''joined''), (0, msg ''ready''), (0, msg ''joined'')]
   \<and> room_after (run sample_parse init
      [Message 0 join_lobby, Message 1 join_lobby, Transport 1 CLOSING, Close 0])
      (KStr ''lobby'') = Some [1]
   \<and> sends_of (run sample_parse init
      [Message 0 join_lobby, Message 1 join_lobby, Transport 1 CLOSING, Close 0])
      = Some [(0, msg ''joined''), (0, msg ''ready'')]"
  by (simp add: sample_defs)

text \<open>
  Claim C7, amended: when the set of a room \<open>R\<close> with a truthy room value is exactly
  \<open>{A, B}\<close> and the \<open>roomId\<close> of \<open>A\<close> is \<open>R\<close>, the disconnect of \<open>A\<close> removes \<open>A\<close> from the
  set, sends exactly one \<open>leave\<close> to \<open>B\<close> if \<open>B\<close> is open and nothing otherwise, and sends
  nothing to \<open>A\<close>. When the disconnecting socket has no \<open>roomId\<close>, or its \<open>roomId\<close> is not in
  \<open>rooms\<close>, the state does not change and nothing is sent.
\<close>

theorem C7_disconnect:
  fixes s :: "'n::zero state"
  shows "(truthy R \<and> roomId s A = Some R
            \<and> (rooms s R = Some [A, B] \<or> rooms s R = Some [B, A]) \<and> A \<noteq> B \<longrightarrow>
          on_close s A =
            (s\<lparr>rooms := (rooms s)(R \<mapsto> [B])\<rparr>,
             if readyState s B = OPEN then [(B, msg ''leave'')] else []))
       \<and> (roomId s A = None \<or> (\<exists>rid. roomId s A = Some rid \<and> rooms s rid = None) \<longrightarrow>
          on_close s A = (s, []))"
  by (auto simp: on_close_def set_delete_def broadcast_def Let_def)

theorem C7_disconnect_witness:
  "on_close ((init :: int state)\<lparr>rooms := [KStr ''lobby'' \<mapsto> [0, 1]],
                                  roomId := [0 \<mapsto> KStr ''lobby'', 1 \<mapsto> KStr ''lobby'']\<rparr>) 0
     = ((init :: int state)\<lparr>rooms := [KStr ''lobby'' \<mapsto> [1]],
                             roomId := [0 \<mapsto> KStr ''lobby'', 1 \<mapsto> KStr ''lobby'']\<rparr>,
        [(1, msg ''leave'')])
   \<and> on_close (init :: int state) 5 = (init, [])
   \<and> on_close ((init :: int state)\<lparr>roomId := [5 \<mapsto> KStr ''cellar'']\<rparr>) 5
     = ((init :: int state)\<lparr>roomId := [5 \<mapsto> KStr ''cellar'']\<rparr>, [])"
proof -
  let ?s = "(init :: int state)\<lparr>rooms := [KStr ''lobby'' \<mapsto> [0, 1]],
                                  roomId := [0 \<mapsto> KStr ''lobby'', 1 \<mapsto> KStr ''lobby'']\<rparr>"
  let ?u = "(init :: int state)\<lparr>roomId := [5 \<mapsto> KStr ''cellar'']\<rparr>"
  have h1: "truthy (KStr ''lobby'' :: int roomkey) \<and> roomId ?s 0 = Some (KStr ''lobby'')
            \<and> (rooms ?s (KStr ''lobby'') = Some [0, 1] \<or> rooms ?s (KStr ''lobby'') = Some [1, 0])
            \<and> (0::nat) \<noteq> 1"
    by simp
  have h2: "roomId (init :: int state) 5 = None"
    by (simp add: init_def)
  have h3: "\<exists>rid. roomId ?u 5 = Some rid \<and> rooms ?u rid = None"
    by (simp add: init_def)
  from C7_disconnect [of "KStr ''lobby''" ?s 0 1] h1
  have p1: "on_close ?s 0 = (?s\<lparr>rooms := (rooms ?s)(KStr ''lobby'' \<mapsto> [1])\<rparr>,
              if readyState ?s 1 = OPEN then [(1, msg ''leave'')] else [])"
    by blast
  from C7_disconnect [of "KStr ''lobby''" init 5 1] h2
  have p2: "on_close (init :: int state) 5 = (init, [])"
    by blast
  from C7_disconnect [of "KStr ''lobby''" ?u 5 1] h3
  have p3: "on_close ?u 5 = (?u, [])"
    by blast
  from p1 p2 p3 show ?thesis
    by (simp add: init_def)
qed

subsection \<open>C8: room isolation\<close>

text \<open>
  Claim C8: for two distinct room values \<open>R1\<close> and \<open>R2\<close>, an \<open>offer\<close>, \<open>answer\<close> or
  \<open>candidate\<close> message naming \<open>R1\<close> is processed without sending anything to a socket
  that is a member of \<open>R2\<close> and not a member of \<open>R1\<close>.
\<close>

theorem C8_room_isolation:
  fixes s :: "'n state"
  assumes "forwarded (get_prop data ''type'')"
    and "room_value (allocated s) (get_prop data ''room'') = R1"
    and "R1 \<noteq> R2"
    and "in_room s R2 c"
    and "\<not> in_room s R1 c"
  shows "\<exists>s' out. dispatch s ws data = Inr (s', out) \<and> c \<notin> fst ` set out"
  using assms
  by (auto simp: dispatch_forward broadcast_def in_room_def split: option.splits)

theorem C8_room_isolation_witness:
  "\<exists>s' out. dispatch ((init :: int state)\<lparr>rooms := [KStr ''lobby'' \<mapsto> [0, 1],
                                                          KStr ''attic'' \<mapsto> [2, 3]]\<rparr>) 0 offer_data
               = Inr (s', out)
           \<and> out = [(1, offer_data)] \<and> 2 \<notin> fst ` set out"
proof -
  let ?s = "(init :: int state)\<lparr>rooms := [KStr ''lobby'' \<mapsto> [0, 1],
                                            KStr ''attic'' \<mapsto> [2, 3]]\<rparr>"
  have t: "forwarded (get_prop offer_data ''type'')"
    by (simp add: forwarded_def offer_data_def)
  have k: "room_value (allocated ?s) (get_prop offer_data ''room'') = KStr ''lobby''"
    by (simp add: offer_data_def)
  have d: "(KStr ''lobby'' :: int roomkey) \<noteq> KStr ''attic''" by simp
  have i2: "in_room ?s (KStr ''attic'') 2" by (simp add: in_room_def)
  have n1: "\<not> in_room ?s (KStr ''lobby'') 2" by (simp add: in_room_def)
  from C8_room_isolation [OF t k d i2 n1, of 0]
  obtain s' out where r: "dispatch ?s 0 offer_data = Inr (s', out)" and n: "2 \<notin> fst ` set out"
    by blast
  have "broadcast ?s (KStr ''lobby'') offer_data 0 = [(1, offer_data)]"
    by (simp add: broadcast_def init_def)
  with dispatch_forward [OF t, of ?s 0] k r have "out = [(1, offer_data)]" by simp
  with r n show ?thesis by blast
qed

subsection \<open>C9: a third join\<close>

text \<open>
  Claim C9: in every state that a run reaches, when socket \<open>C\<close> sends a join for a room
  \<open>R\<close> whose set has two members, neither of them \<open>C\<close>, then \<open>C\<close> is added to the set,
  which then has three members, the \<open>roomId\<close> of \<open>C\<close> becomes \<open>R\<close>, and nothing is sent to
  anybody.
\<close>

theorem C9_third_join:
  fixes s :: "'n::zero state"
  assumes "run parse init evs = Inr (s, out)"
    and "get_prop data ''type'' = Some (JStr ''join'')"
    and "room_value (allocated s) (get_prop data ''room'') = R"
    and "rooms s R = Some cs"
    and "length cs = 2"
    and "C \<notin> set cs"
  shows "\<exists>s'. dispatch s C data = Inr (s', [])
           \<and> rooms s' R = Some (cs @ [C]) \<and> length (cs @ [C]) = 3 \<and> roomId s' C = Some R"
proof -
  from assms(3,4) have "rooms s (room_value (allocated s) (get_prop data ''room'')) \<noteq> None"
    by simp
  with heap_ok_run [OF assms(1)] have "\<not> log_throws (get_prop data ''room'')"
    by (rule existing_room_logs)
  with assms(2-6) show ?thesis
    by (auto simp: dispatch_join join_def ensure_room_def set_add_def Let_def)
qed

theorem C9_third_join_witness:
  "run sample_parse init [Message 0 join_lobby, Message 1 join_lobby]
     = Inr ((init :: int state)\<lparr>rooms := [KStr ''lobby'' \<mapsto> [0, 1]],
                                  roomId := [0 \<mapsto> KStr ''lobby'', 1 \<mapsto> KStr ''lobby''],
                                  allocated := 2\<rparr>,
            [(0, msg ''joined''), (0, msg ''ready'')])
   \<and> (\<exists>s'. dispatch ((init :: int state)\<lparr>rooms := [KStr ''lobby'' \<mapsto> [0, 1]],
                                           roomId := [0 \<mapsto> KStr ''lobby'', 1 \<mapsto> KStr ''lobby''],
                                           allocated := 2\<rparr>) 2
              (JObj [(''type'', JStr ''join''), (''room'', JStr ''lobby'')]) = Inr (s', [])
          \<and> rooms s' (KStr ''lobby'') = Some [0, 1, 2] \<and> roomId s' 2 = Some (KStr ''lobby''))"
proof -
  let ?s = "(init :: int state)\<lparr>rooms := [KStr ''lobby'' \<mapsto> [0, 1]],
                                  roomId := [0 \<mapsto> KStr ''lobby'', 1 \<mapsto> KStr ''lobby''],
                                  allocated := 2\<rparr>"
  let ?d = "JObj [(''type'', JStr ''join''), (''room'', JStr ''lobby'')] :: int json"
  have r: "run sample_parse init [Message 0 join_lobby, Message 1 join_lobby]
             = Inr (?s, [(0, msg ''joined''), (0, msg ''ready'')])"
    by (simp add: sample_defs)
  have t: "get_prop ?d ''type'' = Some (JStr ''join'')" by simp
  have k: "room_value (allocated ?s) (get_prop ?d ''room'') = KStr ''lobby''" by simp
  have m: "rooms ?s (KStr ''lobby'') = Some [0, 1]" by simp
  have l: "length [0::nat, 1] = 2" by simp
  have n: "(2::nat) \<notin> set [0, 1]" by simp
  from C9_third_join [OF r t k m l n] r show ?thesis by simp
qed

subsection \<open>C10: rooms are never pruned\<close>

text \<open>
  Claim C10 as stated does not hold where it says that a room whose last member
  disconnects is left with an empty set: the \<open>close\<close> handler only touches the room named
  by \<open>roomId\<close>. Socket 0 joins the lobby and then the attic; when it disconnects, the lobby
  still holds it, and the next socket to join the lobby is the second member of the set
  and is sent nothing.
\<close>

theorem C10_counterexample:
  "room_after (run sample_parse init
      [Message 0 join_lobby, Message 0 join_attic, Transport 0 CLOSED, Close 0])
      (KStr ''lobby'') = Some [0]
   \<and> sends_of (run sample_parse init
      [Message 0 join_lobby, Message 0 join_attic, Transport 0 CLOSED, Close 0,
       Message 1 join_lobby])
      = Some [(0, msg ''joined''), (0, msg ''joined'')]"
  by (simp add: sample_defs)

text \<open>
  Claim C10, amended: in every state that a run reaches, no further run removes a room
  value from \<open>rooms\<close>. When the only member of a room with a truthy room value disconnects
  and its \<open>roomId\<close> is that room, the room stays in \<open>rooms\<close> with an empty set. A later
  join to a room whose set is empty creates no new set and proceeds exactly as for a room
  that is absent: the joiner is sent \<open>{type: 'joined'}\<close> and is the only member.
\<close>

theorem C10_rooms_never_pruned:
  fixes s :: "'n::zero state"
  assumes "run parse init evs = Inr (s, out)"
  shows "(run parse s evs' = Inr (s', out') \<and> rooms s R \<noteq> None \<longrightarrow> rooms s' R \<noteq> None)
       \<and> (truthy R \<and> roomId s A = Some R \<and> rooms s R = Some [A] \<longrightarrow>
            on_close s A = (s\<lparr>rooms := (rooms s)(R \<mapsto> [])\<rparr>, []))
       \<and> (get_prop data ''type'' = Some (JStr ''join'')
            \<and> room_value (allocated s) (get_prop data ''room'') = R
            \<and> rooms s R = Some [] \<longrightarrow>
            ensure_room (s\<lparr>allocated := Suc (allocated s)\<rparr>) R
              = s\<lparr>allocated := Suc (allocated s)\<rparr>
            \<and> dispatch s C data = dispatch (s\<lparr>rooms := (rooms s)(R := None)\<rparr>) C data
            \<and> (\<exists>s2. dispatch s C data = Inr (s2, [(C, msg ''joined'')])
                  \<and> rooms s2 R = Some [C]))"
proof (intro conjI impI)
  assume "run parse s evs' = Inr (s', out') \<and> rooms s R \<noteq> None"
  then show "rooms s' R \<noteq> None"
    using run_keeps_room by blast
next
  assume "truthy R \<and> roomId s A = Some R \<and> rooms s R = Some [A]"
  then show "on_close s A = (s\<lparr>rooms := (rooms s)(R \<mapsto> [])\<rparr>, [])"
    by (simp add: on_close_def set_delete_def broadcast_def)
next
  assume a: "get_prop data ''type'' = Some (JStr ''join'')
            \<and> room_value (allocated s) (get_prop data ''room'') = R
            \<and> rooms s R = Some []"
  then have "rooms s (room_value (allocated s) (get_prop data ''room'')) \<noteq> None"
    by simp
  with heap_ok_run [OF assms] have q: "\<not> log_throws (get_prop data ''room'')"
    by (rule existing_room_logs)
  from a show "ensure_room (s\<lparr>allocated := Suc (allocated s)\<rparr>) R
               = s\<lparr>allocated := Suc (allocated s)\<rparr>"
    by (simp add: ensure_room_def)
  from a q show "dispatch s C data = dispatch (s\<lparr>rooms := (rooms s)(R := None)\<rparr>) C data"
    by (simp add: dispatch_join join_def ensure_room_def set_add_def Let_def)
  from a q show "\<exists>s2. dispatch s C data = Inr (s2, [(C, msg ''joined'')]) \<and> rooms s2 R = Some [C]"
    by (simp add: dispatch_join join_def ensure_room_def set_add_def Let_def)
qed

theorem C10_rooms_never_pruned_witness:
  "run sample_parse init [Message 0 join_lobby]
     = Inr ((init :: int state)\<lparr>rooms := [KStr ''lobby'' \<mapsto> [0]],
                                  roomId := [0 \<mapsto> KStr ''lobby''], allocated := 1\<rparr>,
            [(0, msg ''joined'')])
   \<and> run sample_parse
       ((init :: int state)\<lparr>rooms := [KStr ''lobby'' \<mapsto> [0]],
                             roomId := [0 \<mapsto> KStr ''lobby''], allocated := 1\<rparr>)
       [Transport 0 CLOSED, Close 0]
     = Inr ((init :: int state)\<lparr>rooms := [KStr ''lobby'' \<mapsto> []],
                                  roomId := [0 \<mapsto> KStr ''lobby''],
                                  readyState := (\<lambda>ws. OPEN)(0 := CLOSED), allocated := 1\<rparr>, [])
   \<and> rooms ((init :: int state)\<lparr>rooms := [KStr ''lobby'' \<mapsto> []],
                                 roomId := [0 \<mapsto> KStr ''lobby''],
                                 readyState := (\<lambda>ws. OPEN)(0 := CLOSED), allocated := 1\<rparr>)
        (KStr ''lobby'') \<noteq> None
   \<and> on_close ((init :: int state)\<lparr>rooms := [KStr ''lobby'' \<mapsto> [0]],
                                    roomId := [0 \<mapsto> KStr ''lobby''], allocated := 1\<rparr>) 0
       = ((init :: int state)\<lparr>rooms := [KStr ''lobby'' \<mapsto> []],
                                roomId := [0 \<mapsto> KStr ''lobby''], allocated := 1\<rparr>, [])
   \<and> (\<exists>s2. dispatch ((init :: int state)\<lparr>rooms := [KStr ''lobby'' \<mapsto> []],
                                           roomId := [0 \<mapsto> KStr ''lobby''],
                                           readyState := (\<lambda>ws. OPEN)(0 := CLOSED),
                                           allocated := 1\<rparr>) 1
               (JObj [(''type'', JStr ''join''), (''room'', JStr ''lobby'')])
             = Inr (s2, [(1, msg ''joined'')])
          \<and> rooms s2 (KStr ''lobby'') = Some [1])"
proof -
  let ?d = "JObj [(''type'', JStr ''join''), (''room'', JStr ''lobby'')] :: int json"
  let ?c = "(init :: int state)\<lparr>rooms := [KStr ''lobby'' \<mapsto> [0]],
                                  roomId := [0 \<mapsto> KStr ''lobby''], allocated := 1\<rparr>"
  let ?e = "(init :: int state)\<lparr>rooms := [KStr ''lobby'' \<mapsto> []],
                                 roomId := [0 \<mapsto> KStr ''lobby''],
                                 readyState := (\<lambda>ws. OPEN)(0 := CLOSED), allocated := 1\<rparr>"
  have r1: "run sample_parse init [Message 0 join_lobby] = Inr (?c, [(0, msg ''joined'')])"
    by (simp add: sample_defs)
  have r2: "run sample_parse ?c [Transport 0 CLOSED, Close 0] = Inr (?e, [])"
    by (simp add: sample_defs)
  have r3: "run sample_parse init [Message 0 join_lobby, Transport 0 CLOSED, Close 0]
              = Inr (?e, [(0, msg ''joined'')])"
    by (simp add: sample_defs)
  have h1: "run sample_parse ?c [Transport 0 CLOSED, Close 0] = Inr (?e, [])
            \<and> rooms ?c (KStr ''lobby'') \<noteq> None"
    using r2 by simp
  have h2: "truthy (KStr ''lobby'' :: int roomkey) \<and> roomId ?c 0 = Some (KStr ''lobby'')
            \<and> rooms ?c (KStr ''lobby'') = Some [0]"
    by simp
  have h3: "get_prop ?d ''type'' = Some (JStr ''join'')
            \<and> room_value (allocated ?e) (get_prop ?d ''room'') = KStr ''lobby''
            \<and> rooms ?e (KStr ''lobby'') = Some []"
    by simp
  from C10_rooms_never_pruned [OF r1, where evs' = "[Transport 0 CLOSED, Close 0]"
      and s' = ?e and out' = "[]" and R = "KStr ''lobby''"] h1
  have p1: "rooms ?e (KStr ''lobby'') \<noteq> None"
    by blast
  from C10_rooms_never_pruned [OF r1, where R = "KStr ''lobby''" and A = 0] h2
  have p2: "on_close ?c 0 = (?c\<lparr>rooms := (rooms ?c)(KStr ''lobby'' \<mapsto> [])\<rparr>, [])"
    by blast
  from C10_rooms_never_pruned [OF r3, where R = "KStr ''lobby''" and data = ?d and C = 1] h3
  have p4: "\<exists>s2. dispatch ?e 1 ?d = Inr (s2, [(1, msg ''joined'')])
                 \<and> rooms s2 (KStr ''lobby'') = Some [1]"
    by blast
  from p2 have p2': "on_close ?c 0 = ((init :: int state)\<lparr>rooms := [KStr ''lobby'' \<mapsto> []],
                        roomId := [0 \<mapsto> KStr ''lobby''], allocated := 1\<rparr>, [])"
    by simp
  from r1 r2 p1 p2' p4 show ?thesis by simp
qed

end
